theory Spec2Isabelle
  imports Main "HOL-Library.Sublist" "HOL-Library.Char_ord" "HOL-Library.List_Lexorder"
    "HOL-Library.Multiset" "HOL-Library.AList"
begin

section \<open>Route path ordering (sortRoutePaths, getRoutePathScore)\<close>

text \<open>
  JavaScript strings are modelled as \<^typ>\<open>string\<close>. \<open>s.charAt(i)\<close> is the one-character
  string at index \<open>i\<close>, or the empty string when \<open>i\<close> is out of range. \<open>s[i]\<close> is
  \<open>undefined\<close> out of range, so a comparison \<open>s[i] === "e"\<close> is false there.
  The comparison \<open>charA < charB\<close> of two such strings is the lexicographic order on
  strings, which HOL-Library.List_Lexorder and HOL-Library.Char_ord provide.
\<close>

definition charAt :: "string \<Rightarrow> nat \<Rightarrow> string" where
  "charAt s i = (if i < length s then [s ! i] else [])"

definition idxIs :: "string \<Rightarrow> nat \<Rightarrow> char \<Rightarrow> bool" where
  "idxIs s i c = (i < length s \<and> s ! i = c)"

text \<open>
  \<open>APP_REG = /_app(?!\.[tj]sx?)?$/\<close>: the look-ahead is optional and stands right before
  the end anchor, so \<open>APP_REG.test(s)\<close> holds exactly when \<open>s\<close> ends with \<open>_app\<close>.
\<close>

definition APP_REG_test :: "string \<Rightarrow> bool" where
  "APP_REG_test s = suffix ''_app'' s"

definition getRoutePathScore :: "string \<Rightarrow> string \<Rightarrow> nat \<Rightarrow> int" where
  "getRoutePathScore char s i =
     (if char = ''_'' then
        (if i + 1 < length s \<and> idxIs s (i + 1) CHR ''e'' then 6
         else if i + 1 < length s \<and> idxIs s (i + 1) CHR ''m'' then 5
         else 4)
      else if char = ''['' then
        (if i + 1 < length s \<and> idxIs s (i + 1) CHR ''.'' then 0 else 1)
      else if i + 4 + 1 = length s \<and> char = ''i'' \<and> idxIs s (i + 1) CHR ''n'' \<and>
              idxIs s (i + 2) CHR ''d'' \<and> idxIs s (i + 3) CHR ''e'' \<and>
              idxIs s (i + 4) CHR ''x'' then 3
      else 2)"

text \<open>
  The \<open>for\<close> loop of \<open>sortRoutePaths\<close>, with its mutable \<open>segmentIdx\<close> and the counter
  \<open>i\<close> as arguments; every \<open>return\<close> of the loop body is a branch.
\<close>

function sortLoop :: "string \<Rightarrow> string \<Rightarrow> nat \<Rightarrow> nat \<Rightarrow> nat \<Rightarrow> int" where
  "sortLoop a b maxLen segmentIdx i =
     (if i < maxLen then
        (let charA = charAt a i; charB = charAt b i in
         if charA = ''/'' \<or> charB = ''/'' then
           (if charA \<noteq> ''/'' then 1
            else if charB \<noteq> ''/'' then - 1
            else sortLoop a b maxLen i (i + 1))
         else if i = segmentIdx + 1 then
           (let scoreA = getRoutePathScore charA a i;
                scoreB = getRoutePathScore charB b i in
            if scoreA = scoreB then
              (if charA \<noteq> charB then (if charA < charB then 0 else 1)
               else sortLoop a b maxLen segmentIdx (i + 1))
            else (if scoreA > scoreB then - 1 else 1))
         else if charA \<noteq> charB then (if charA < charB then 0 else 1)
         else sortLoop a b maxLen segmentIdx (i + 1))
      else 0)"
  by pat_completeness auto
termination
  by (relation "measure (\<lambda>(a, b, maxLen, segmentIdx, i). maxLen - i)") auto

declare sortLoop.simps [simp del]

definition sortRoutePaths :: "string \<Rightarrow> string \<Rightarrow> int" where
  "sortRoutePaths a b =
     (if APP_REG_test a then - 1
      else if APP_REG_test b then 1
      else (let aLen = length a; bLen = length b;
                maxLen = (if aLen > bLen then aLen else bLen)
            in sortLoop a b maxLen 0 0))"


text \<open>
  \<open>routeModules.sort((a, b) => sortRoutePaths(a.path, b.path))\<close>. \<open>Array.prototype.sort\<close>
  belongs to the language, not to the repository. It is modelled as the stable insertion
  sort that takes the elements from left to right and puts each one in front of the first
  element it compares below (\<open>cmp x y < 0\<close>).
\<close>

fun insertBy :: "('a \<Rightarrow> 'a \<Rightarrow> int) \<Rightarrow> 'a \<Rightarrow> 'a list \<Rightarrow> 'a list" where
  "insertBy cmp x [] = [x]"
| "insertBy cmp x (y # ys) = (if cmp x y < 0 then x # y # ys else y # insertBy cmp x ys)"

definition arraySort :: "('a \<Rightarrow> 'a \<Rightarrow> int) \<Rightarrow> 'a list \<Rightarrow> 'a list" where
  "arraySort cmp xs = foldl (\<lambda>acc x. insertBy cmp x acc) [] xs"

text \<open>
  \<open>normalizedPath = `/${routePath.slice(0, routePath.lastIndexOf("."))}`\<close>.
  \<open>lastIndexOf\<close> is \<open>-1\<close> when the character does not occur, and \<open>slice(0, e)\<close> with a
  negative \<open>e\<close> counts from the end of the string.
\<close>

definition lastIndexOf :: "char \<Rightarrow> string \<Rightarrow> int" where
  "lastIndexOf c s =
     (if c \<in> set s then int (length s - 1 - length (takeWhile (\<lambda>x. x \<noteq> c) (rev s))) else - 1)"

definition slice0 :: "string \<Rightarrow> int \<Rightarrow> string" where
  "slice0 s e = (if e < 0 then take (nat (int (length s) + e)) s else take (nat e) s)"

definition normalizedPath :: "string \<Rightarrow> string" where
  "normalizedPath routePath = ''/'' @ slice0 routePath (lastIndexOf CHR ''.'' routePath)"

definition exampleFiles :: "string list" where
  "exampleFiles = [''_app.tsx'', ''_middleware.ts'', ''about.tsx'', ''[id].tsx'',
                   ''[...slug].tsx'', ''index.tsx'']"

definition exampleSorted :: "string list" where
  "exampleSorted = [''/_app'', ''/_middleware'', ''/index'', ''/about'', ''/[id]'', ''/[...slug]'']"

section \<open>Composition of route files (fsRoutes)\<close>


datatype Method = HEAD | GET | POST | PATCH | PUT | DELETE



text \<open>
  The middleware functions that \<open>fsRoutes\<close> hands to the application are closures. Each
  constructor stands for the closure made by the function of the same name, with the
  arguments it captures; \<open>HandlerMw\<close> is a function exported by a \<open>_middleware\<close> file.
\<close>

datatype ('c, 'h) MiddlewareFn =
    HandlerMw 'h
  | RenderMw "'c list" "'h option"
  | ErrorMw "'c list" "'h option"
  | NotFoundMw "'c list" "'h option"

text \<open>The calls made on the application object: \<open>app.use\<close>, \<open>app.all\<close>, \<open>app.get\<close>, ...\<close>

datatype ('c, 'h) AppCall =
    AppUse "('c, 'h) MiddlewareFn"
  | AppAll string "('c, 'h) MiddlewareFn list"
  | AppMethod Method string "('c, 'h) MiddlewareFn list"












text \<open>The state of the loop over the stack (\<open>for (let k = 0; ...)\<close>).\<close>

record ('c, 'h) Compose =
  middlewares :: "('c, 'h) MiddlewareFn list"
  components :: "'c list"
  skipApp :: bool
  hasApp :: bool
  calls :: "('c, 'h) AppCall list"














section \<open>Running middlewares (renderMiddleware, errorMiddleware, notFoundMiddleware)\<close>

text \<open>
  A thrown value is an \<open>HttpError\<close> (error.ts) with its status and message, an \<open>Error\<close>
  with its message, or any other value.
\<close>

datatype thrown = HttpError nat string | Error string | OtherThrown string

record Response =
  body :: "string option"
  status :: nat
  headers :: "(string \<times> string) list"

text \<open>
  The request context. \<open>ctx.next\<close> cannot be a field here (the record would contain
  functions on itself), so the continuation is an argument of every middleware. The
  context is one mutable object, so every call returns the context it leaves behind.
\<close>

record 's FreshContext =
  ctxConfig :: string
  url :: string
  req :: string
  params :: "(string \<times> string) list"
  state :: 's
  error :: "thrown option"

text \<open>
  What a call of a JavaScript function gives: it throws, it returns a plain value, or it
  returns a promise, which is fulfilled or rejected. An \<open>async\<close> function always returns a
  promise.
\<close>

datatype 'a settled = Fulfilled 'a | Rejected thrown

datatype 'a callResult = Throws thrown | ReturnsValue 'a | ReturnsPromise "'a settled"

text \<open>
  \<open>await f(x)\<close> inside \<open>try\<close>: a synchronous throw and a rejection both reach the
  \<open>catch\<close> block (\<open>Inl\<close>).
\<close>

fun await :: "'a callResult \<Rightarrow> thrown + 'a" where
  "await (Throws e) = Inl e"
| "await (ReturnsValue v) = Inr v"
| "await (ReturnsPromise (Fulfilled v)) = Inr v"
| "await (ReturnsPromise (Rejected e)) = Inl e"

text \<open>
  \<open>return f(x)\<close> in an \<open>async\<close> function outside any \<open>try\<close>: the promise of the function
  takes the outcome of \<open>f(x)\<close>.
\<close>

fun asyncReturn :: "'a callResult \<Rightarrow> 'a settled" where
  "asyncReturn (Throws e) = Rejected e"
| "asyncReturn (ReturnsValue v) = Fulfilled v"
| "asyncReturn (ReturnsPromise p) = p"

type_synonym 's "next" = "'s FreshContext \<Rightarrow> Response callResult \<times> 's FreshContext"

type_synonym 's middleware = "'s next \<Rightarrow> 's FreshContext \<Rightarrow> Response callResult \<times> 's FreshContext"

text \<open>
  A route handler returns a \<open>Response\<close> (\<open>Inl\<close>) or the data to render, if any (\<open>Inr\<close>).
\<close>

type_synonym ('s, 'd) handler =
  "'s next \<Rightarrow> 's FreshContext \<Rightarrow> (Response + 'd option) callResult \<times> 's FreshContext"

text \<open>
  A virtual node \<open>h(component, props)\<close> with the props that \<open>renderMiddleware\<close> passes;
  \<open>Component = () => child\<close> is kept as the child it returns.
\<close>

datatype ('c, 's, 'd) VNode =
  H (vtype: 'c) (pConfig: string) (pUrl: string) (pReq: string)
    (pParams: "(string \<times> string) list") (pState: 's)
    (pComponent: "('c, 's, 'd) VNode option") (pError: "thrown option") (pData: "'d option")

text \<open>
  A component is a plain function component, or an \<open>async\<close> function that is called with
  a copy of the context and \<open>Component\<close> and returns a node or a \<open>Response\<close>.
\<close>

datatype ('c, 's, 'd) AnyComponent =
    SyncComponent 'c
  | AsyncComponent "'s FreshContext \<Rightarrow> ('c, 's, 'd) VNode option
                      \<Rightarrow> (('c, 's, 'd) VNode + Response) callResult"

text \<open>
  The loop \<open>for (let i = components.length - 1; i >= 0; i--)\<close> of \<open>renderMiddleware\<close>,
  over the reversed list: an \<open>Inl\<close> is a thrown value, \<open>Inr (Inl r)\<close> the \<open>Response\<close>
  an \<open>async\<close> component returned, \<open>Inr (Inr v)\<close> the final node.
\<close>

fun renderLoop ::
  "'s FreshContext \<Rightarrow> 'd option \<Rightarrow> ('c, 's, 'd) AnyComponent list \<Rightarrow> ('c, 's, 'd) VNode option
     \<Rightarrow> thrown + (Response + ('c, 's, 'd) VNode option)" where
  "renderLoop ctx data [] vnode = Inr (Inr vnode)"
| "renderLoop ctx data (SyncComponent c # cs) vnode =
     renderLoop ctx data cs
       (Some (H c (ctxConfig ctx) (url ctx) (req ctx) (params ctx) (state ctx) vnode
                (error ctx) data))"
| "renderLoop ctx data (AsyncComponent fn # cs) vnode =
     (case await (fn ctx vnode) of
        Inl e \<Rightarrow> Inl e
      | Inr (Inr r) \<Rightarrow> Inr (Inl r)
      | Inr (Inl v) \<Rightarrow> renderLoop ctx data cs (Some v))"

text \<open>
  \<open>renderMiddleware(components, handler)\<close>. \<open>ctx.render\<close> (the renderer) is the parameter
  \<open>render\<close>. The closure is \<open>async\<close>: whatever is thrown inside rejects its promise.
\<close>

definition renderTail ::
  "('s FreshContext \<Rightarrow> ('c, 's, 'd) VNode option \<Rightarrow> Response callResult)
     \<Rightarrow> ('c, 's, 'd) AnyComponent list \<Rightarrow> 'd option \<Rightarrow> 's FreshContext
     \<Rightarrow> Response callResult \<times> 's FreshContext" where
  "renderTail render comps data ctx =
     (if length comps = 0 then
        (ReturnsPromise (Rejected (Error ''Did not receive any components to render.'')), ctx)
      else
        (case renderLoop ctx data (rev comps) None of
           Inl e \<Rightarrow> (ReturnsPromise (Rejected e), ctx)
         | Inr (Inl r) \<Rightarrow> (ReturnsPromise (Fulfilled r), ctx)
         | Inr (Inr vnode) \<Rightarrow> (ReturnsPromise (asyncReturn (render ctx vnode)), ctx)))"

definition renderMiddleware ::
  "('s FreshContext \<Rightarrow> ('c, 's, 'd) VNode option \<Rightarrow> Response callResult)
     \<Rightarrow> ('c, 's, 'd) AnyComponent list \<Rightarrow> ('s, 'd) handler option \<Rightarrow> 's middleware" where
  "renderMiddleware render comps handler nxt ctx =
     (case handler of
        None \<Rightarrow> renderTail render comps None ctx
      | Some h \<Rightarrow>
          (case h nxt ctx of (r, ctx1) \<Rightarrow>
             (case await r of
                Inl e \<Rightarrow> (ReturnsPromise (Rejected e), ctx1)
              | Inr (Inl res) \<Rightarrow> (ReturnsPromise (Fulfilled res), ctx1)
              | Inr (Inr data) \<Rightarrow> renderTail render comps data ctx1)))"

definition errorMiddleware ::
  "('s FreshContext \<Rightarrow> ('c, 's, 'd) VNode option \<Rightarrow> Response callResult)
     \<Rightarrow> ('c, 's, 'd) AnyComponent list \<Rightarrow> ('s, 'd) handler option \<Rightarrow> 's middleware" where
  "errorMiddleware render comps handler nxt ctx =
     (let mid = renderMiddleware render comps handler in
      case nxt ctx of (r, ctx1) \<Rightarrow>
        (case await r of
           Inr res \<Rightarrow> (ReturnsPromise (Fulfilled res), ctx1)
         | Inl err \<Rightarrow>
             (case mid nxt (ctx1\<lparr>error := Some err\<rparr>) of (r2, ctx2) \<Rightarrow>
                (ReturnsPromise (asyncReturn r2), ctx2))))"

fun isNotFound :: "thrown \<Rightarrow> bool" where
  "isNotFound (HttpError st msg) = (st = 404)"
| "isNotFound (Error msg) = False"
| "isNotFound (OtherThrown v) = False"

definition notFoundMiddleware ::
  "('s FreshContext \<Rightarrow> ('c, 's, 'd) VNode option \<Rightarrow> Response callResult)
     \<Rightarrow> ('c, 's, 'd) AnyComponent list \<Rightarrow> ('s, 'd) handler option \<Rightarrow> 's middleware" where
  "notFoundMiddleware render comps handler nxt ctx =
     (let mid = renderMiddleware render comps handler in
      case nxt ctx of (r, ctx1) \<Rightarrow>
        (case await r of
           Inr res \<Rightarrow> (ReturnsPromise (Fulfilled res), ctx1)
         | Inl err \<Rightarrow>
             (if isNotFound err then
                (case mid nxt ctx1 of (r2, ctx2) \<Rightarrow> (ReturnsPromise (asyncReturn r2), ctx2))
              else (ReturnsPromise (Rejected err), ctx1))))"

section \<open>The request handler (App.handler)\<close>

text \<open>
  \<open>new HttpError(status)\<close>: the message the constructor (error.ts) gives a status is the
  parameter \<open>statusText\<close>.
\<close>

definition DEFAULT_NOT_FOUND :: "(nat \<Rightarrow> string) \<Rightarrow> 's next" where
  "DEFAULT_NOT_FOUND statusText ctx = (Throws (HttpError 404 (statusText 404)), ctx)"

definition DEFAULT_NOT_ALLOWED_METHOD :: "(nat \<Rightarrow> string) \<Rightarrow> 's next" where
  "DEFAULT_NOT_ALLOWED_METHOD statusText ctx = (Throws (HttpError 405 (statusText 405)), ctx)"

text \<open>What \<open>router.match\<close> returns.\<close>

record 's Matched =
  matchParams :: "(string \<times> string) list"
  matchHandlers :: "'s middleware list list"
  patternMatch :: bool
  methodMatch :: bool

text \<open>The \<open>catch\<close> block of the request handler.\<close>

fun errorResponse :: "thrown \<Rightarrow> Response" where
  "errorResponse (HttpError st msg) = \<lparr>body = Some msg, status = st, headers = []\<rparr>"
| "errorResponse (Error msg) = \<lparr>body = Some ''Internal server error'', status = 500, headers = []\<rparr>"
| "errorResponse (OtherThrown v) =
     \<lparr>body = Some ''Internal server error'', status = 500, headers = []\<rparr>"

text \<open>
  The closure \<open>async (req) => { ... }\<close> from the match on; the result is the outcome of the
  promise it returns. \<open>runMiddlewares\<close> (middlewares/mod.ts) is a parameter. In the fast
  path the call stands in \<open>return handlers[0][0](ctx)\<close> without \<open>await\<close>: a synchronous
  throw is caught, a returned promise is handed out as it is. The general path is
  \<open>return await runMiddlewares(handlers, ctx)\<close>.
\<close>

definition appHandler ::
  "(nat \<Rightarrow> string) \<Rightarrow> ('s next \<Rightarrow> 's middleware list list \<Rightarrow> 's next)
     \<Rightarrow> 's Matched \<Rightarrow> 's FreshContext \<Rightarrow> Response settled" where
  "appHandler statusText runMiddlewares matched ctx0 =
     (let nxt = (if patternMatch matched \<and> \<not> methodMatch matched
                 then DEFAULT_NOT_ALLOWED_METHOD statusText
                 else DEFAULT_NOT_FOUND statusText);
          hs = matchHandlers matched;
          ctx = ctx0\<lparr>params := matchParams matched\<rparr>
      in
      if length hs = 1 \<and> length (hs ! 0) = 1 then
        (case fst ((hs ! 0 ! 0) nxt ctx) of
           Throws err \<Rightarrow> Fulfilled (errorResponse err)
         | ReturnsValue res \<Rightarrow> Fulfilled res
         | ReturnsPromise p \<Rightarrow> p)
      else
        (case await (fst (runMiddlewares nxt hs ctx)) of
           Inl err \<Rightarrow> Fulfilled (errorResponse err)
         | Inr res \<Rightarrow> Fulfilled res))"

section \<open>Redirects (FreshReqContext.redirect)\<close>





section \<open>Islands (App.island)\<close>

record 'f Island =
  fn :: 'f
  exportName :: string
  name :: string
  file' :: string

text \<open>
  The two private fields of \<open>App\<close> that \<open>island\<close> uses: the set \<open>#islandNames\<close> and the
  map \<open>#islandRegistry\<close>, keyed by the component function; a \<open>Map\<close> keeps its keys in
  insertion order and \<open>set\<close> on a present key replaces the value in place.
\<close>

record 'f App =
  islandNames :: "string list"
  islandRegistry :: "('f \<times> 'f Island) list"

function showNat :: "nat \<Rightarrow> string" where
  "showNat n =
     (if n < 10 then [char_of (48 + n)] else showNat (n div 10) @ [char_of (48 + n mod 10)])"
  by pat_completeness auto
termination
  by (relation "measure id") auto

declare showNat.simps [simp del]

text \<open>
  \<open>while (this.#islandNames.has(`${name}_${i}`)) i++\<close>; the result is the final \<open>i\<close>, and
  \<open>None\<close> stands for a loop that does not end.
\<close>

partial_function (option) freeSuffix :: "string list \<Rightarrow> string \<Rightarrow> nat \<Rightarrow> nat option" where
  "freeSuffix names nm i =
     (if (nm @ ''_'' @ showNat i) \<in> set names then freeSuffix names nm (i + 1) else Some i)"

text \<open>
  \<open>island(filePathOrUrl, exportName, fn)\<close>. \<open>baseName\<close> stands for
  \<open>path.basename(filePath, path.extname(filePath))\<close> of the standard library. The method
  reads \<open>#islandNames\<close> and writes \<open>#islandRegistry\<close>; no statement of the class adds a
  name to \<open>#islandNames\<close>.
\<close>

definition island ::
  "(string \<Rightarrow> string) \<Rightarrow> string \<Rightarrow> string \<Rightarrow> 'f \<Rightarrow> 'f App \<Rightarrow> 'f App option" where
  "island baseName filePathOrUrl exportName0 fn0 app =
     (let name0 = (if exportName0 = ''default'' then baseName filePathOrUrl else exportName0) in
      case (if name0 \<in> set (islandNames app)
            then map_option (\<lambda>i. name0 @ ''_'' @ showNat i) (freeSuffix (islandNames app) name0 0)
            else Some name0) of
        None \<Rightarrow> None
      | Some name1 \<Rightarrow>
          Some (app\<lparr>islandRegistry :=
                  AList.update fn0 \<lparr>fn = fn0, exportName = exportName0, name = name1,
                                    file' = filePathOrUrl\<rparr> (islandRegistry app)\<rparr>))"

definition newApp :: "'f App" where
  "newApp = \<lparr>islandNames = [], islandRegistry = []\<rparr>"

section \<open>One iteration of the comparison loop\<close>

text \<open>
  For the proofs, the body of the loop of \<open>sortRoutePaths\<close> is read as one step: it either
  returns a value or goes on with a segment index. \<open>stepOf\<close> has the shape of the loop body,
  over the two characters, the two scores and the test \<open>i === segmentIdx + 1\<close>.
\<close>

datatype step = Ret int | Cont nat

definition stepOf :: "string \<Rightarrow> string \<Rightarrow> int \<Rightarrow> int \<Rightarrow> bool \<Rightarrow> nat \<Rightarrow> nat \<Rightarrow> step" where
  "stepOf charA charB scoreA scoreB segStart segmentIdx i =
     (if charA = ''/'' \<or> charB = ''/'' then
        (if charA \<noteq> ''/'' then Ret 1 else if charB \<noteq> ''/'' then Ret (- 1) else Cont i)
      else if segStart then
        (if scoreA = scoreB then
           (if charA \<noteq> charB then (if charA < charB then Ret 0 else Ret 1) else Cont segmentIdx)
         else (if scoreA > scoreB then Ret (- 1) else Ret 1))
      else if charA \<noteq> charB then (if charA < charB then Ret 0 else Ret 1)
      else Cont segmentIdx)"

definition loopStep :: "string \<Rightarrow> string \<Rightarrow> nat \<Rightarrow> nat \<Rightarrow> step" where
  "loopStep a b segmentIdx i =
     stepOf (charAt a i) (charAt b i) (getRoutePathScore (charAt a i) a i)
       (getRoutePathScore (charAt b i) b i) (i = segmentIdx + 1) segmentIdx i"

section \<open>The two parts of a redirect target\<close>



section \<open>Example values\<close>

text \<open>
  A request context, a continuation that throws a given value, a renderer that answers 200
  with a body that tells whether the node carries an error, and route configurations with
  one flag set; they are the concrete inputs of the examples below.
\<close>

definition exampleCtx :: "unit FreshContext" where
  "exampleCtx = \<lparr>ctxConfig = ''config'', url = ''http://localhost/blog/post'',
                  req = ''GET /blog/post'', params = [], state = (), error = None\<rparr>"

definition throwingNext :: "thrown \<Rightarrow> unit next" where
  "throwingNext e ctx = (Throws e, ctx)"

definition exampleRender :: "unit FreshContext \<Rightarrow> (nat, unit, unit) VNode option \<Rightarrow> Response callResult" where
  "exampleRender ctx vnode =
     ReturnsValue \<lparr>body = Some (case vnode of
                                   None \<Rightarrow> ''empty''
                                 | Some v \<Rightarrow> (case pError v of None \<Rightarrow> ''page''
                                             | Some e \<Rightarrow> ''error page'')),
                   status = 200, headers = []\<rparr>"



section \<open>The comparison of route paths is transitive\<close>

lemma sortLoop_step:
  "sortLoop a b M s i =
     (if i < M then (case loopStep a b s i of Ret v \<Rightarrow> v | Cont s' \<Rightarrow> sortLoop a b M s' (i + 1))
      else 0)"
  apply (subst sortLoop.simps)
  apply (simp only: loopStep_def stepOf_def Let_def if_distrib [where f = "case_step f g" for f g]
      step.case)
  done

lemma score_empty: "getRoutePathScore [] s i = 2"
  by (simp add: getRoutePathScore_def)

lemma loopStep_past_end:
  "length a \<le> i \<Longrightarrow> length b \<le> i \<Longrightarrow> loopStep a b s i = Cont s"
  by (simp add: loopStep_def stepOf_def charAt_def score_empty)

text \<open>Past the end of both strings the loop only runs out: \<open>maxLen\<close> is the right bound.\<close>

lemma sortLoop_past_end:
  "length a \<le> i \<Longrightarrow> length b \<le> i \<Longrightarrow> sortLoop a b M s i = 0"
proof (induction "M - i" arbitrary: i)
  case 0
  then show ?case by (subst sortLoop_step) simp
next
  case (Suc n)
  then have "sortLoop a b M s (i + 1) = 0" by simp
  with Suc.prems show ?case
    by (subst sortLoop_step) (simp add: loopStep_past_end)
qed

lemma sortLoop_maxLen:
  assumes "length a \<le> M" "length b \<le> M" "length a \<le> M'" "length b \<le> M'"
  shows "sortLoop a b M s i = sortLoop a b M' s i"
proof (induction "M - i" arbitrary: s i)
  case 0
  then have "length a \<le> i" "length b \<le> i" using assms by auto
  then show ?case by (simp add: sortLoop_past_end)
next
  case (Suc n)
  then have lt: "i < M" by simp
  show ?case
  proof (cases "i < M'")
    case True
    have "sortLoop a b M s' (i + 1) = sortLoop a b M' s' (i + 1)" for s'
      using Suc by simp
    with True lt show ?thesis
      by (subst sortLoop_step, subst (2) sortLoop_step) (simp split: step.splits)
  next
    case False
    then have "length a \<le> i" "length b \<le> i" using assms by auto
    then show ?thesis by (simp add: sortLoop_past_end)
  qed
qed

text \<open>
  One step on \<open>(a, b)\<close> and one on \<open>(b, c)\<close> decide the step on \<open>(a, c)\<close>, as far as
  negative results go.
\<close>

lemma stepOf_trans:
  "stepOf ca cb sa sb g s i = Ret v \<Longrightarrow> v < 0 \<Longrightarrow> stepOf cb cc sb sc g s i = Ret w \<Longrightarrow> w < 0 \<Longrightarrow>
     \<exists>u. stepOf ca cc sa sc g s i = Ret u \<and> u < 0"
  "stepOf ca cb sa sb g s i = Ret v \<Longrightarrow> v < 0 \<Longrightarrow> stepOf cb cc sb sc g s i = Cont s' \<Longrightarrow>
     \<exists>u. stepOf ca cc sa sc g s i = Ret u \<and> u < 0"
  "stepOf ca cb sa sb g s i = Cont s' \<Longrightarrow> stepOf cb cc sb sc g s i = Ret w \<Longrightarrow> w < 0 \<Longrightarrow>
     \<exists>u. stepOf ca cc sa sc g s i = Ret u \<and> u < 0"
  "stepOf ca cb sa sb g s i = Cont s' \<Longrightarrow> stepOf cb cc sb sc g s i = Cont s'' \<Longrightarrow>
     s'' = s' \<and> stepOf ca cc sa sc g s i = Cont s'"
  unfolding stepOf_def
  by (cases "ca = ''/''"; cases "cb = ''/''"; cases "cc = ''/''"; cases g;
      cases "ca = cb"; cases "cb = cc"; cases "sa = sb"; cases "sb = sc";
      simp split: if_splits)+

lemmas loopStep_trans =
  stepOf_trans [where ca = "charAt a i" and cb = "charAt b i" and cc = "charAt c i"
    and sa = "getRoutePathScore (charAt a i) a i" and sb = "getRoutePathScore (charAt b i) b i"
    and sc = "getRoutePathScore (charAt c i) c i" and g = "i = s + 1" and s = s and i = i,
    folded loopStep_def] for a b c s i

lemma sortLoop_trans:
  "sortLoop a b M s i < 0 \<Longrightarrow> sortLoop b c M s i < 0 \<Longrightarrow> sortLoop a c M s i < 0"
proof (induction "M - i" arbitrary: s i)
  case 0
  then show ?case by (subst (asm) sortLoop_step) simp
next
  case (Suc n)
  then have lt: "i < M" and n: "n = M - (i + 1)" by auto
  note IH = Suc(1)[OF n]
  from Suc(3) lt
  have ab: "(case loopStep a b s i of Ret v \<Rightarrow> v | Cont s' \<Rightarrow> sortLoop a b M s' (i + 1)) < 0"
    by (subst (asm) sortLoop_step) simp
  from Suc(4) lt
  have bc: "(case loopStep b c s i of Ret v \<Rightarrow> v | Cont s' \<Rightarrow> sortLoop b c M s' (i + 1)) < 0"
    by (subst (asm) sortLoop_step) simp
  have "(case loopStep a c s i of Ret v \<Rightarrow> v | Cont s' \<Rightarrow> sortLoop a c M s' (i + 1)) < 0"
  proof (cases "loopStep a b s i")
    case (Ret v)
    note R1 = this
    with ab have v: "v < 0" by simp
    show ?thesis
    proof (cases "loopStep b c s i")
      case (Ret w)
      with bc have "w < 0" by simp
      from loopStep_trans(1)[OF R1 v Ret this] show ?thesis by auto
    next
      case (Cont s')
      from loopStep_trans(2)[OF R1 v Cont] show ?thesis by auto
    qed
  next
    case (Cont s')
    note C1 = this
    show ?thesis
    proof (cases "loopStep b c s i")
      case (Ret w)
      with bc have "w < 0" by simp
      from loopStep_trans(3)[OF C1 Ret this] show ?thesis by auto
    next
      case (Cont s'')
      from loopStep_trans(4)[OF C1 Cont] have e: "s'' = s'" "loopStep a c s i = Cont s'" by auto
      from ab C1 have "sortLoop a b M s' (i + 1) < 0" by simp
      moreover from bc Cont e have "sortLoop b c M s' (i + 1) < 0" by simp
      ultimately have "sortLoop a c M s' (i + 1) < 0" by (rule IH)
      with e show ?thesis by simp
    qed
  qed
  with lt show ?case by (subst sortLoop_step) simp
qed

lemma sortRoutePaths_loop:
  assumes "\<not> APP_REG_test a" "\<not> APP_REG_test b" "length a \<le> M" "length b \<le> M"
  shows "sortRoutePaths a b = sortLoop a b M 0 0"
proof -
  have "sortRoutePaths a b = sortLoop a b (max (length a) (length b)) 0 0"
    using assms(1,2) by (simp add: sortRoutePaths_def Let_def max_def)
  also have "\<dots> = sortLoop a b M 0 0"
    using assms(3,4) by (intro sortLoop_maxLen) auto
  finally show ?thesis .
qed

lemma sortRoutePaths_trans:
  assumes "sortRoutePaths a b < 0" "sortRoutePaths b c < 0"
  shows "sortRoutePaths a c < 0"
proof (cases "APP_REG_test a")
  case True
  then show ?thesis by (simp add: sortRoutePaths_def)
next
  case False
  with assms(1) have nb: "\<not> APP_REG_test b"
    by (simp add: sortRoutePaths_def split: if_splits)
  with assms(2) have nc: "\<not> APP_REG_test c"
    by (simp add: sortRoutePaths_def split: if_splits)
  define M where "M = max (length a) (max (length b) (length c))"
  have ab: "sortRoutePaths a b = sortLoop a b M 0 0"
    using False nb by (intro sortRoutePaths_loop) (simp_all add: M_def)
  have bc: "sortRoutePaths b c = sortLoop b c M 0 0"
    using nb nc by (intro sortRoutePaths_loop) (simp_all add: M_def)
  have ac: "sortRoutePaths a c = sortLoop a c M 0 0"
    using False nc by (intro sortRoutePaths_loop) (simp_all add: M_def)
  from assms show ?thesis unfolding ab bc ac by (rule sortLoop_trans)
qed

text \<open>Away from \<open>_app\<close>, a negative result turns positive when the arguments are swapped.\<close>

lemma stepOf_asym:
  "stepOf ca cb sa sb g s i = Ret v \<Longrightarrow> v < 0 \<Longrightarrow> stepOf cb ca sb sa g s i = Ret 1"
  "stepOf ca cb sa sb g s i = Cont s' \<Longrightarrow> stepOf cb ca sb sa g s i = Cont s'"
  unfolding stepOf_def
  by (cases "ca = ''/''"; cases "cb = ''/''"; cases g; cases "ca = cb"; cases "sa = sb";
      simp split: if_splits)+

lemmas loopStep_asym =
  stepOf_asym [where ca = "charAt a i" and cb = "charAt b i"
    and sa = "getRoutePathScore (charAt a i) a i" and sb = "getRoutePathScore (charAt b i) b i"
    and g = "i = s + 1" and s = s and i = i, folded loopStep_def] for a b s i

lemma sortLoop_asym:
  "sortLoop a b M s i < 0 \<Longrightarrow> 0 < sortLoop b a M s i"
proof (induction "M - i" arbitrary: s i)
  case 0
  then show ?case by (subst (asm) sortLoop_step) simp
next
  case (Suc n)
  then have lt: "i < M" and n: "n = M - (i + 1)" by auto
  note IH = Suc(1)[OF n]
  from Suc(3) lt
  have ab: "(case loopStep a b s i of Ret v \<Rightarrow> v | Cont s' \<Rightarrow> sortLoop a b M s' (i + 1)) < 0"
    by (subst (asm) sortLoop_step) simp
  have "0 < (case loopStep b a s i of Ret v \<Rightarrow> v | Cont s' \<Rightarrow> sortLoop b a M s' (i + 1))"
  proof (cases "loopStep a b s i")
    case (Ret v)
    with ab have "v < 0" by simp
    from loopStep_asym(1)[OF Ret this] show ?thesis by simp
  next
    case (Cont s')
    with ab have "sortLoop a b M s' (i + 1) < 0" by simp
    then have "0 < sortLoop b a M s' (i + 1)" by (rule IH)
    with loopStep_asym(2)[OF Cont] show ?thesis by simp
  qed
  with lt show ?case by (subst sortLoop_step) simp
qed

lemma sortRoutePaths_asym:
  assumes "\<not> APP_REG_test a" "sortRoutePaths a b < 0"
  shows "0 < sortRoutePaths b a"
proof -
  from assms have nb: "\<not> APP_REG_test b"
    by (simp add: sortRoutePaths_def split: if_splits)
  define M where "M = max (length a) (length b)"
  have ab: "sortRoutePaths a b = sortLoop a b M 0 0"
    using assms(1) nb by (intro sortRoutePaths_loop) (simp_all add: M_def)
  have ba: "sortRoutePaths b a = sortLoop b a M 0 0"
    using assms(1) nb by (intro sortRoutePaths_loop) (simp_all add: M_def)
  from assms(2) show ?thesis unfolding ab ba by (rule sortLoop_asym)
qed

text \<open>
  Claim C1, as far as it holds. The comparator is not a total order, but its negative
  results compose: for all route paths \<open>a\<close>, \<open>b\<close>, \<open>c\<close>, if \<open>sortRoutePaths(a, b) < 0\<close> and
  \<open>sortRoutePaths(b, c) < 0\<close> then \<open>sortRoutePaths(a, c) < 0\<close>. And when \<open>a\<close> does not end
  with \<open>_app\<close>, \<open>sortRoutePaths(a, b) < 0\<close> gives \<open>sortRoutePaths(b, a) > 0\<close>, so that no
  such path is below itself and no two are below each other.
\<close>

theorem sortRoutePaths_transitive:
  "(sortRoutePaths a b < 0 \<and> sortRoutePaths b c < 0 \<longrightarrow> sortRoutePaths a c < 0) \<and>
   (\<not> APP_REG_test a \<and> sortRoutePaths a b < 0 \<longrightarrow> 0 < sortRoutePaths b a)"
  using sortRoutePaths_trans [of a b c] sortRoutePaths_asym [of a b] by blast

theorem sortRoutePaths_transitive_witness:
  "sortRoutePaths ''/_middleware'' ''/index'' < 0 \<and> sortRoutePaths ''/index'' ''/about'' < 0 \<and>
   \<not> APP_REG_test ''/_middleware'' \<and>
   sortRoutePaths ''/_middleware'' ''/about'' < 0 \<and> 0 < sortRoutePaths ''/index'' ''/_middleware''"
proof -
  have h1: "sortRoutePaths ''/_middleware'' ''/index'' < 0" by code_simp
  have h2: "sortRoutePaths ''/index'' ''/about'' < 0" by code_simp
  have h3: "\<not> APP_REG_test ''/_middleware''" by code_simp
  from sortRoutePaths_transitive [of "''/_middleware''" "''/index''" "''/about''"] h1 h2 h3
  show ?thesis by blast
qed

text \<open>
  Claim C1 as stated fails. A total order puts no path below itself and no two paths below
  each other. The comparator returns \<open>-1\<close> whenever its first argument ends with
  \<open>_app\<close>: also against itself, and against another such path in both directions.
\<close>

theorem sortRoutePaths_not_total_order:
  "sortRoutePaths ''/_app'' ''/_app'' < 0 \<and>
   sortRoutePaths ''/_app'' ''/a/_app'' < 0 \<and> sortRoutePaths ''/a/_app'' ''/_app'' < 0"
  by code_simp

text \<open>
  The tie-break between two characters of equal score answers 0 or 1, never a negative
  number.
\<close>

lemma sortRoutePaths_tie_break:
  "sortRoutePaths ''/about'' ''/blog'' = 0 \<and> sortRoutePaths ''/blog'' ''/about'' = 1"
  by code_simp

section \<open>Sorting the files of one directory\<close>

text \<open>
  The insertion sort rebuilds a list \<open>es\<close> from any arrangement of its elements, when the
  comparator puts every element of \<open>es\<close> strictly below the later ones.
\<close>

lemma insertBy_filter:
  assumes "sorted_wrt (\<lambda>a b. cmp a b < 0 \<and> \<not> cmp b a < 0) es" "distinct es"
    and "x \<in> set es" "x \<notin> A"
  shows "insertBy cmp x (filter (\<lambda>e. e \<in> A) es) = filter (\<lambda>e. e \<in> insert x A) es"
  using assms
proof (induction es)
  case Nil
  then show ?case by simp
next
  case (Cons e es)
  show ?case
  proof (cases "e = x")
    case True
    with Cons.prems have notin: "x \<notin> set es" and lt: "\<forall>y\<in>set es. cmp x y < 0" by auto
    have same: "filter (\<lambda>e. e \<in> insert x A) es = filter (\<lambda>e. e \<in> A) es"
      using notin by (intro filter_cong) auto
    have "insertBy cmp x (filter (\<lambda>e. e \<in> A) es) = x # filter (\<lambda>e. e \<in> A) es"
    proof (cases "filter (\<lambda>e. e \<in> A) es")
      case Nil
      then show ?thesis by simp
    next
      case (Cons y ys)
      then have "y \<in> set (filter (\<lambda>e. e \<in> A) es)" by simp
      then have "y \<in> set es" by simp
      with lt have "cmp x y < 0" by blast
      with Cons show ?thesis by simp
    qed
    with True Cons.prems(4) same show ?thesis by simp
  next
    case False
    with Cons.prems have xin: "x \<in> set es" and ex: "cmp e x < 0 \<and> \<not> cmp x e < 0" by auto
    have IH: "insertBy cmp x (filter (\<lambda>e. e \<in> A) es) = filter (\<lambda>e. e \<in> insert x A) es"
      using Cons.IH Cons.prems xin by simp
    show ?thesis using False ex IH by simp
  qed
qed

lemma foldl_insertBy_filter:
  assumes "sorted_wrt (\<lambda>a b. cmp a b < 0 \<and> \<not> cmp b a < 0) es" "distinct es"
  shows "distinct xs \<Longrightarrow> set xs \<subseteq> set es \<Longrightarrow> A \<inter> set xs = {} \<Longrightarrow>
         foldl (\<lambda>acc x. insertBy cmp x acc) (filter (\<lambda>e. e \<in> A) es) xs
           = filter (\<lambda>e. e \<in> A \<union> set xs) es"
proof (induction xs arbitrary: A)
  case Nil
  then show ?case by simp
next
  case (Cons x xs)
  have "insertBy cmp x (filter (\<lambda>e. e \<in> A) es) = filter (\<lambda>e. e \<in> insert x A) es"
    using assms Cons.prems by (intro insertBy_filter) auto
  moreover have "foldl (\<lambda>acc x. insertBy cmp x acc) (filter (\<lambda>e. e \<in> insert x A) es) xs
      = filter (\<lambda>e. e \<in> insert x A \<union> set xs) es"
    using Cons.prems by (intro Cons.IH) auto
  ultimately show ?case by simp
qed

lemma arraySort_unique:
  assumes "sorted_wrt (\<lambda>a b. cmp a b < 0 \<and> \<not> cmp b a < 0) es" "distinct es"
    and "mset xs = mset es"
  shows "arraySort cmp xs = es"
proof -
  have d: "distinct xs" using assms(2,3) by (metis mset_eq_imp_distinct_iff)
  have s: "set xs = set es" using assms(3) by (rule mset_eq_setD)
  have "foldl (\<lambda>acc x. insertBy cmp x acc) (filter (\<lambda>e. e \<in> {}) es) xs
           = filter (\<lambda>e. e \<in> {} \<union> set xs) es"
    using assms(1,2) d s by (intro foldl_insertBy_filter) auto
  then show ?thesis by (simp add: arraySort_def s)
qed

lemma exampleSorted_ordered:
  "sorted_wrt (\<lambda>a b. sortRoutePaths a b < 0 \<and> \<not> sortRoutePaths b a < 0) exampleSorted"
  by code_simp

lemma exampleSorted_distinct: "distinct exampleSorted"
  by code_simp

text \<open>
  Claim C4. The route paths of the files \<open>_app\<close>, \<open>_middleware\<close>, \<open>about.tsx\<close>, \<open>[id].tsx\<close>,
  \<open>[...slug].tsx\<close> and \<open>index.tsx\<close> of one directory, in whatever order the walk of the
  directory delivers them, are sorted with \<open>sortRoutePaths\<close> into \<open>/_app\<close>, \<open>/_middleware\<close>,
  \<open>/index\<close>, \<open>/about\<close>, \<open>/[id]\<close>, \<open>/[...slug]\<close>.
\<close>

theorem sort_example_directory:
  "mset xs = mset (map normalizedPath exampleFiles) \<Longrightarrow>
   arraySort sortRoutePaths xs = exampleSorted"
proof -
  assume a: "mset xs = mset (map normalizedPath exampleFiles)"
  have "mset (map normalizedPath exampleFiles) = mset exampleSorted"
    by (simp add: exampleFiles_def exampleSorted_def normalizedPath_def slice0_def lastIndexOf_def)
  with a have "mset xs = mset exampleSorted" by simp
  with exampleSorted_ordered exampleSorted_distinct show ?thesis
    by (rule arraySort_unique)
qed

theorem sort_example_directory_witness:
  "arraySort sortRoutePaths (map normalizedPath exampleFiles) = exampleSorted"
  using sort_example_directory [of "map normalizedPath exampleFiles"] by simp

section \<open>Redirect targets\<close>
















section \<open>Island names\<close>

text \<open>
  \<open>island\<close> never changes \<open>#islandNames\<close>, so the set stays empty and the test
  \<open>this.#islandNames.has(name)\<close> never holds.
\<close>

lemma island_names_unchanged:
  "island baseName f e g app = Some app' \<Longrightarrow> islandNames app' = islandNames app"
  by (auto simp: island_def Let_def split: option.splits if_splits)

lemma island_no_names:
  "islandNames app = [] \<Longrightarrow>
   island baseName f e g app =
     Some (app\<lparr>islandRegistry :=
       AList.update g \<lparr>fn = g, exportName = e,
          name = (if e = ''default'' then baseName f else e), file' = f\<rparr> (islandRegistry app)\<rparr>)"
  by (simp add: island_def Let_def)

text \<open>
  Claim C9 fails on the code. Two components exported as \<open>Counter\<close> from two files are
  both registered under the name \<open>Counter\<close>: the second one gets no suffix.
\<close>

theorem island_same_name_twice:
  "Option.bind (island baseName ''islands/a/Counter.tsx'' ''Counter'' (1::nat) newApp)
     (island baseName ''islands/b/Counter.tsx'' ''Counter'' 2) =
   Some \<lparr>islandNames = [],
         islandRegistry =
           [(1, \<lparr>fn = 1, exportName = ''Counter'', name = ''Counter'',
                 file' = ''islands/a/Counter.tsx''\<rparr>),
            (2, \<lparr>fn = 2, exportName = ''Counter'', name = ''Counter'',
                 file' = ''islands/b/Counter.tsx''\<rparr>)]\<rparr>"
  by (simp add: island_no_names newApp_def)

section \<open>Thrown values and the request handler\<close>

text \<open>
  Claim C3 fails on the fast path. The route has one handler, the closure of
  \<open>renderMiddleware\<close> for a route file whose handler throws \<open>new HttpError(404)\<close>, and no
  other middleware. The closure is \<open>async\<close>, so the error rejects its promise; the fast
  path returns that promise without \<open>await\<close>, and the promise of the request handler is
  rejected with the error: no response with status 404 is produced.
\<close>

theorem appHandler_fast_path_rejects:
  "appHandler statusText runMiddlewares
     \<lparr>matchParams = ps,
      matchHandlers =
        [[renderMiddleware render comps
            (Some (\<lambda>nxt ctx. (Throws (HttpError 404 ''Not Found''), ctx)))]],
      patternMatch = True, methodMatch = True\<rparr> ctx
   = Rejected (HttpError 404 ''Not Found'')"
  by (simp add: appHandler_def Let_def renderMiddleware_def)

text \<open>On the general path every thrown value becomes a response.\<close>

lemma appHandler_general_path:
  "\<not> (length (matchHandlers m) = 1 \<and> length (matchHandlers m ! 0) = 1) \<Longrightarrow>
   \<exists>res. appHandler statusText runMiddlewares m ctx = Fulfilled res"
  by (auto simp: appHandler_def Let_def split: sum.splits)

section \<open>Error and not-found middlewares\<close>

lemma renderTail_promise:
  "\<exists>p c. renderTail render comps data ctx = (ReturnsPromise p, c)"
  by (simp add: renderTail_def split: sum.splits)

lemma renderMiddleware_promise:
  "\<exists>p c. renderMiddleware render comps handler nxt ctx = (ReturnsPromise p, c)"
  using renderTail_promise [of render comps]
  by (auto simp: renderMiddleware_def split: option.splits prod.splits sum.splits)

text \<open>
  Claim C6. Whatever \<open>ctx.next()\<close> throws, synchronously or through its promise, the
  error middleware does not pass it on: its result is the result of its render middleware
  on the context with \<open>ctx.error\<close> set to the thrown value. With one plain component and
  no handler, that is the rendering of the node whose \<open>error\<close> prop is the thrown value.
\<close>

theorem errorMiddleware_catches:
  assumes "nxt ctx = (r, ctx1)" and "await r = Inl err"
  shows "errorMiddleware render comps handler nxt ctx
           = renderMiddleware render comps handler nxt (ctx1\<lparr>error := Some err\<rparr>) \<and>
         errorMiddleware render [SyncComponent c] None nxt ctx
           = (ReturnsPromise (asyncReturn (render (ctx1\<lparr>error := Some err\<rparr>)
                (Some (H c (ctxConfig ctx1) (url ctx1) (req ctx1) (params ctx1) (state ctx1)
                         None (Some err) None)))),
              ctx1\<lparr>error := Some err\<rparr>)"
proof -
  obtain p c' where m: "renderMiddleware render comps handler nxt (ctx1\<lparr>error := Some err\<rparr>)
      = (ReturnsPromise p, c')"
    using renderMiddleware_promise by blast
  have 1: "errorMiddleware render comps handler nxt ctx
           = renderMiddleware render comps handler nxt (ctx1\<lparr>error := Some err\<rparr>)"
    using assms by (simp add: errorMiddleware_def Let_def m)
  have 2: "renderMiddleware render [SyncComponent c] None nxt (ctx1\<lparr>error := Some err\<rparr>)
      = (ReturnsPromise (asyncReturn (render (ctx1\<lparr>error := Some err\<rparr>)
                (Some (H c (ctxConfig ctx1) (url ctx1) (req ctx1) (params ctx1) (state ctx1)
                         None (Some err) None)))),
              ctx1\<lparr>error := Some err\<rparr>)"
    by (simp add: renderMiddleware_def renderTail_def)
  obtain p2 c2 where m2: "renderMiddleware render [SyncComponent c] None nxt (ctx1\<lparr>error := Some err\<rparr>)
      = (ReturnsPromise p2, c2)"
    using renderMiddleware_promise by blast
  have 3: "errorMiddleware render [SyncComponent c] None nxt ctx
           = renderMiddleware render [SyncComponent c] None nxt (ctx1\<lparr>error := Some err\<rparr>)"
    using assms by (simp add: errorMiddleware_def Let_def m2)
  from 1 2 3 show ?thesis by simp
qed

theorem errorMiddleware_catches_witness:
  "throwingNext (OtherThrown ''boom'') exampleCtx = (Throws (OtherThrown ''boom''), exampleCtx) \<and>
   await (Throws (OtherThrown ''boom'') :: Response callResult) = Inl (OtherThrown ''boom'') \<and>
   errorMiddleware exampleRender [SyncComponent 7] None (throwingNext (OtherThrown ''boom''))
       exampleCtx
     = (ReturnsPromise (Fulfilled \<lparr>body = Some ''error page'', status = 200, headers = []\<rparr>),
        exampleCtx\<lparr>error := Some (OtherThrown ''boom'')\<rparr>)"
proof -
  have h1: "throwingNext (OtherThrown ''boom'') exampleCtx
      = (Throws (OtherThrown ''boom''), exampleCtx)"
    by (simp add: throwingNext_def)
  have h2: "await (Throws (OtherThrown ''boom'') :: Response callResult) = Inl (OtherThrown ''boom'')"
    by simp
  from errorMiddleware_catches [where nxt = "throwingNext (OtherThrown ''boom'')" and ctx = exampleCtx
    and render = exampleRender and comps = "[SyncComponent 7]" and handler = None and c = 7,
    OF h1 h2]
  have "errorMiddleware exampleRender [SyncComponent 7] None (throwingNext (OtherThrown ''boom''))
       exampleCtx
     = (ReturnsPromise (asyncReturn (exampleRender (exampleCtx\<lparr>error := Some (OtherThrown ''boom'')\<rparr>)
                (Some (H 7 (ctxConfig exampleCtx) (url exampleCtx) (req exampleCtx)
                         (params exampleCtx) (state exampleCtx)
                         None (Some (OtherThrown ''boom'')) None)))),
              exampleCtx\<lparr>error := Some (OtherThrown ''boom'')\<rparr>)"
    by (rule conjunct2)
  then have "errorMiddleware exampleRender [SyncComponent 7] None
       (throwingNext (OtherThrown ''boom'')) exampleCtx
     = (ReturnsPromise (Fulfilled \<lparr>body = Some ''error page'', status = 200, headers = []\<rparr>),
        exampleCtx\<lparr>error := Some (OtherThrown ''boom'')\<rparr>)"
    by (simp add: exampleRender_def)
  with h1 h2 show ?thesis by (intro conjI)
qed

text \<open>
  Claim C7. When \<open>ctx.next()\<close> throws, the not-found middleware renders its own
  components exactly when the thrown value is an \<open>HttpError\<close> with status 404; any other
  thrown value rejects its promise unchanged.
\<close>

theorem notFoundMiddleware_catches_404_only:
  assumes "nxt ctx = (r, ctx1)" and "await r = Inl err"
  shows "notFoundMiddleware render comps handler nxt ctx =
           (if \<exists>msg. err = HttpError 404 msg
            then renderMiddleware render comps handler nxt ctx1
            else (ReturnsPromise (Rejected err), ctx1))"
proof -
  obtain p c' where m: "renderMiddleware render comps handler nxt ctx1 = (ReturnsPromise p, c')"
    using renderMiddleware_promise by blast
  have nf: "isNotFound err = (\<exists>msg. err = HttpError 404 msg)" by (cases err) auto
  show ?thesis using assms by (simp add: notFoundMiddleware_def Let_def m nf)
qed

theorem notFoundMiddleware_catches_404_only_witness:
  "notFoundMiddleware exampleRender [SyncComponent 7] None
       (throwingNext (HttpError 404 ''Not Found'')) exampleCtx
     = (ReturnsPromise (Fulfilled \<lparr>body = Some ''page'', status = 200, headers = []\<rparr>), exampleCtx) \<and>
   notFoundMiddleware exampleRender [SyncComponent 7] None
       (throwingNext (HttpError 500 ''Internal Server Error'')) exampleCtx
     = (ReturnsPromise (Rejected (HttpError 500 ''Internal Server Error'')), exampleCtx)"
proof -
  have a1: "throwingNext (HttpError 404 ''Not Found'') exampleCtx
      = (Throws (HttpError 404 ''Not Found''), exampleCtx)"
    by (simp add: throwingNext_def)
  have a2: "await (Throws (HttpError 404 ''Not Found'') :: Response callResult)
      = Inl (HttpError 404 ''Not Found'')"
    by simp
  have b1: "throwingNext (HttpError 500 ''Internal Server Error'') exampleCtx
      = (Throws (HttpError 500 ''Internal Server Error''), exampleCtx)"
    by (simp add: throwingNext_def)
  have b2: "await (Throws (HttpError 500 ''Internal Server Error'') :: Response callResult)
      = Inl (HttpError 500 ''Internal Server Error'')"
    by simp
  from notFoundMiddleware_catches_404_only [where nxt = "throwingNext (HttpError 404 ''Not Found'')"
    and ctx = exampleCtx and render = exampleRender and comps = "[SyncComponent 7]"
    and handler = None, OF a1 a2]
  have 1: "notFoundMiddleware exampleRender [SyncComponent 7] None
       (throwingNext (HttpError 404 ''Not Found'')) exampleCtx
     = (ReturnsPromise (Fulfilled \<lparr>body = Some ''page'', status = 200, headers = []\<rparr>), exampleCtx)"
    by (simp add: renderMiddleware_def renderTail_def exampleRender_def exampleCtx_def)
  from notFoundMiddleware_catches_404_only
    [where nxt = "throwingNext (HttpError 500 ''Internal Server Error'')"
    and ctx = exampleCtx and render = exampleRender and comps = "[SyncComponent 7]"
    and handler = None, OF b1 b2]
  have 2: "notFoundMiddleware exampleRender [SyncComponent 7] None
       (throwingNext (HttpError 500 ''Internal Server Error'')) exampleCtx
     = (ReturnsPromise (Rejected (HttpError 500 ''Internal Server Error'')), exampleCtx)"
    by simp
  from 1 2 show ?thesis by (intro conjI)
qed

section \<open>Component chains of leaf routes\<close>

















end
